theory Spec2Isabelle
  imports Main "HOL-Library.Sublist"
begin

section \<open>JavaScript strings and the regular expressions of the sources\<close>

text \<open>
  A JavaScript string is a sequence of UTF-16 code units. It is modelled as a \<open>string\<close>
  whose characters stand for the code units U+0000 .. U+00FF; \<open>charCode\<close> reads the
  code unit. The character classes below are the ECMAScript ones cut down to that range:
  \<^verbatim>\<open>\w\<close> is \<^verbatim>\<open>[A-Za-z0-9_]\<close>, \<^verbatim>\<open>\s\<close> is TAB, LF, VT, FF, CR, SPACE and NBSP, and
  \<^verbatim>\<open>.\<close> is every code unit but the line terminators LF and CR.
\<close>

definition charCode :: "char \<Rightarrow> nat" where
  "charCode c = of_char c"

definition isUpperChar :: "char \<Rightarrow> bool" where
  "isUpperChar c = (65 \<le> charCode c \<and> charCode c \<le> 90)"

definition isWordChar :: "char \<Rightarrow> bool" where
  "isWordChar c =
     (let n = charCode c
      in (48 \<le> n \<and> n \<le> 57) \<or> (65 \<le> n \<and> n \<le> 90) \<or> n = 95 \<or> (97 \<le> n \<and> n \<le> 122))"

definition isSpaceChar :: "char \<Rightarrow> bool" where
  "isSpaceChar c = (let n = charCode c in (9 \<le> n \<and> n \<le> 13) \<or> n = 32 \<or> n = 160)"

definition isLineTerminator :: "char \<Rightarrow> bool" where
  "isLineTerminator c = (charCode c = 10 \<or> charCode c = 13)"

text \<open>
  \<^verbatim>\<open>String.prototype.toLowerCase\<close>: in the range U+0000 .. U+00FF the letters with a
  lower-case partner are A .. Z and U+00C0 .. U+00DE without the multiplication sign
  U+00D7; the partner is 32 code units further.
\<close>

definition toLowerChar :: "char \<Rightarrow> char" where
  "toLowerChar c =
     (let n = charCode c
      in if (65 \<le> n \<and> n \<le> 90) \<or> (192 \<le> n \<and> n \<le> 222 \<and> n \<noteq> 215)
         then char_of (n + 32) else c)"

definition toLowerCase :: "string \<Rightarrow> string" where
  "toLowerCase s = map toLowerChar s"

text \<open>\<^verbatim>\<open>s.startsWith(t)\<close> and \<^verbatim>\<open>s.includes(t)\<close>.\<close>

fun String_startsWith :: "string \<Rightarrow> string \<Rightarrow> bool" where
  "String_startsWith s [] = True"
| "String_startsWith [] (d # ds) = False"
| "String_startsWith (c # cs) (d # ds) = (c = d \<and> String_startsWith cs ds)"

fun String_includes :: "string \<Rightarrow> string \<Rightarrow> bool" where
  "String_includes [] t = String_startsWith [] t"
| "String_includes (c # cs) t = (String_startsWith (c # cs) t \<or> String_includes cs t)"

text \<open>
  A regular expression without capture groups is modelled by its matcher: applied to the
  rest of the input at the current position, it returns the length of the match that
  the backtracking engine finds there, or \<open>None\<close>. The expressions of the sources are
  deterministic (a greedy class repetition followed by a character outside the class),
  so each matcher is written out directly.
\<close>

type_synonym regex = "string \<Rightarrow> nat option"

text \<open>A greedy \<^verbatim>\<open>[class]+\<close>: \<^verbatim>\<open>\s+\<close>, \<^verbatim>\<open>[^\w-]+\<close> and \<^verbatim>\<open>-+\<close>.\<close>

definition re_plus :: "(char \<Rightarrow> bool) \<Rightarrow> regex" where
  "re_plus P s = (let n = length (takeWhile P s) in if n = 0 then None else Some n)"

definition isDash :: "char \<Rightarrow> bool" where
  "isDash c = (c = CHR ''-'')"

definition isNotSlugChar :: "char \<Rightarrow> bool" where
  "isNotSlugChar c = (\<not> (isWordChar c \<or> c = CHR ''-''))"

text \<open>\<^verbatim>\<open>--+\<close>: a dash and then one or more dashes.\<close>

definition re_dashes2 :: regex where
  "re_dashes2 s = (let n = length (takeWhile isDash s) in if n < 2 then None else Some n)"

text \<open>\<^verbatim>\<open>-+$\<close>: one or more dashes that reach the end of the input.\<close>

definition re_dashes_end :: regex where
  "re_dashes_end s = (if s \<noteq> [] \<and> list_all isDash s then Some (length s) else None)"

text \<open>A single literal character: \<^verbatim>\<open>:\<close> and \<^verbatim>\<open>%\<close>.\<close>

definition re_char :: "char \<Rightarrow> regex" where
  "re_char x s = (case s of [] \<Rightarrow> None | c # cs \<Rightarrow> if c = x then Some 1 else None)"

text \<open>\<^verbatim>\<open>%\w+%\<close>: a percent sign, the longest run of word characters (at least one), and
  a percent sign right after the run.\<close>

definition re_placeholder :: regex where
  "re_placeholder s =
     (case s of
        [] \<Rightarrow> None
      | c # cs \<Rightarrow>
          if c = CHR ''%'' then
            (let n = length (takeWhile isWordChar cs)
             in if n = 0 then None
                else (case drop n cs of
                        [] \<Rightarrow> None
                      | d # ds \<Rightarrow> if d = CHR ''%'' then Some (n + 2) else None))
          else None)"

text \<open>
  \<^verbatim>\<open>s.replace(/re/g, f)\<close>: the input is scanned from the left; where the expression
  matches, the match is replaced by \<open>f\<close> of the matched text and the scan goes on behind
  the match (one code unit further after an empty match); elsewhere the code unit is
  copied. A replacement string without \<^verbatim>\<open>$\<close> is the constant function.
\<close>

function String_replace_global :: "regex \<Rightarrow> (string \<Rightarrow> string) \<Rightarrow> string \<Rightarrow> string" where
  "String_replace_global re f [] = (case re [] of None \<Rightarrow> [] | Some n \<Rightarrow> f [])"
| "String_replace_global re f (c # cs) =
     (case re (c # cs) of
        None \<Rightarrow> c # String_replace_global re f cs
      | Some n \<Rightarrow>
          if n = 0 then f [] @ c # String_replace_global re f cs
          else f (take n (c # cs)) @ String_replace_global re f (drop n (c # cs)))"
  by pat_completeness auto
termination
  by (relation "measure (\<lambda>(re, f, s). length s)") auto

text \<open>\<^verbatim>\<open>s.replace(/re/, f)\<close> without the \<^verbatim>\<open>g\<close> flag: only the leftmost match is replaced.\<close>

fun String_replace_first :: "regex \<Rightarrow> (string \<Rightarrow> string) \<Rightarrow> string \<Rightarrow> string" where
  "String_replace_first re f [] = (case re [] of None \<Rightarrow> [] | Some n \<Rightarrow> f [])"
| "String_replace_first re f (c # cs) =
     (case re (c # cs) of
        None \<Rightarrow> c # String_replace_first re f cs
      | Some n \<Rightarrow> f (take n (c # cs)) @ drop n (c # cs))"

text \<open>\<^verbatim>\<open>s.replace(/^re/, f)\<close>: the anchor lets the expression match at index 0 only.\<close>

definition String_replace_anchored :: "regex \<Rightarrow> (string \<Rightarrow> string) \<Rightarrow> string \<Rightarrow> string" where
  "String_replace_anchored re f s =
     (case re s of None \<Rightarrow> s | Some n \<Rightarrow> f (take n s) @ drop n s)"

text \<open>
  \<^verbatim>\<open>_(.*?)_\<close> at the current position: an underscore, then the lazy \<^verbatim>\<open>.*?\<close> grows one
  code unit at a time until an underscore follows; it cannot grow over a line
  terminator. The result is the capture group.
\<close>

definition re_underscores :: "string \<Rightarrow> string option" where
  "re_underscores s =
     (case s of
        [] \<Rightarrow> None
      | c # cs \<Rightarrow>
          if c = CHR ''_'' then
            (let cap = takeWhile (\<lambda>x. x \<noteq> CHR ''_'' \<and> \<not> isLineTerminator x) cs
             in (case drop (length cap) cs of
                   [] \<Rightarrow> None
                 | d # ds \<Rightarrow> if d = CHR ''_'' then Some cap else None))
          else None)"

text \<open>
  \<^verbatim>\<open>s.match(/re/)\<close> for an expression with one group: \<open>None\<close> is JavaScript's
  \<^verbatim>\<open>null\<close>, \<open>Some cap\<close> is the array whose element 1 is the capture of the leftmost
  match.
\<close>

fun String_match :: "(string \<Rightarrow> string option) \<Rightarrow> string \<Rightarrow> string option" where
  "String_match re [] = re []"
| "String_match re (c # cs) =
     (case re (c # cs) of None \<Rightarrow> String_match re cs | Some cap \<Rightarrow> Some cap)"

section \<open>lib/helpers/slugify.js\<close>

text \<open>
  \<^verbatim>\<open>slugify(text, delimiter = '-')\<close>. Every caller in the repository leaves the
  delimiter to its default; the second argument is kept as the source has it (for a
  delimiter without \<^verbatim>\<open>$\<close>, which a replacement string would expand).
\<close>

definition slugify :: "string \<Rightarrow> string \<Rightarrow> string" where
  "slugify text delimiter =
     (let s1 = toLowerCase text;
          s2 = String_replace_global (re_plus isSpaceChar) (\<lambda>m. delimiter) s1;
          s3 = String_replace_global (re_plus isNotSlugChar) (\<lambda>m. []) s2;
          s4 = String_replace_global re_dashes2 (\<lambda>m. delimiter) s3;
          s5 = String_replace_anchored (re_plus isDash) (\<lambda>m. []) s4;
          s6 = String_replace_first re_dashes_end (\<lambda>m. []) s5
      in s6)"

section \<open>lib/wdio-errorshot-reporter.js\<close>

subsection \<open>Configuration, screenshot event and reporter object\<close>

text \<open>
  The configuration object of \<^verbatim>\<open>wdio.conf.js\<close>: \<^verbatim>\<open>screenshotPath\<close>,
  \<^verbatim>\<open>reporterOptions\<close>, \<^verbatim>\<open>reporterOptions.errorshotReporter\<close> and its \<^verbatim>\<open>template\<close> may
  each be missing (\<open>None\<close>); what is there is a string or an object.
\<close>

record errorshotReporterOptions =
  template :: "string option"

record reporterOptions =
  errorshotReporter :: "errorshotReporterOptions option"

record config =
  screenshotPath :: "string option"
  reporterOptions :: "reporterOptions option"

text \<open>
  The payload of the \<^verbatim>\<open>runner:screenshot\<close> event. A property is \<open>Absent\<close> when the
  object does not own it, \<open>Undefined\<close> when the object owns it and its value is
  \<^verbatim>\<open>undefined\<close> or \<^verbatim>\<open>null\<close>, and \<open>Value v\<close> when it holds a string or, for
  \<^verbatim>\<open>time\<close>, a \<^verbatim>\<open>Date\<close> object of type \<open>'d\<close>. \<^verbatim>\<open>hasOwnProperty\<close> tells \<open>Absent\<close> from
  the two others; reading gives \<^verbatim>\<open>undefined\<close> for \<open>Absent\<close> and \<open>Undefined\<close> alike.
  The method \<^verbatim>\<open>toJSON\<close> of a \<^verbatim>\<open>Date\<close> belongs to the JavaScript library and is the
  parameter \<open>toJSON\<close> of the functions that call it: it returns the ISO text, or
  \<^verbatim>\<open>null\<close> (\<open>None\<close>) for an invalid date.
\<close>

datatype 'a property = Absent | Undefined | Value 'a

definition hasOwnProperty :: "'a property \<Rightarrow> bool" where
  "hasOwnProperty p = (p \<noteq> Absent)"

record 'd screenshot =
  filename :: "string property"
  time :: "'d property"
  parent :: "string property"
  title :: "string property"

text \<open>
  Calling a method of \<^verbatim>\<open>undefined\<close> or \<^verbatim>\<open>null\<close> throws a \<^verbatim>\<open>TypeError\<close>, and so does
  \<^verbatim>\<open>path.join\<close> on an argument that is not a string.
\<close>

datatype jserror = TypeError

text \<open>The reporter object: the fields the constructor sets and the methods read.\<close>

record reporter =
  config :: config
  filenameTemplate :: string

text \<open>
  What a call leaves behind: the requests made to \<^verbatim>\<open>fs.rename\<close>, in order, and the lines
  given to \<^verbatim>\<open>this.log\<close>, which the constructor sets to \<^verbatim>\<open>() => {}\<close>.
\<close>

record effects =
  renames :: "(string \<times> string) list"
  logged :: "string list"

definition no_effects :: effects where
  "no_effects = \<lparr>renames = [], logged = []\<rparr>"

definition log :: "string \<Rightarrow> string list" where
  "log msg = []"

subsection \<open>Methods\<close>

definition defaultFilenameTemplate :: string where
  "defaultFilenameTemplate = ''%timestamp%_%capId%_%parent%-%title%''"

text \<open>A string is falsy when it is \<^verbatim>\<open>undefined\<close> or empty.\<close>

definition falsy :: "string option \<Rightarrow> bool" where
  "falsy v = (case v of None \<Rightarrow> True | Some s \<Rightarrow> s = [])"

definition getOptionFilenameTemplate :: "config \<Rightarrow> string" where
  "getOptionFilenameTemplate cfg =
     (case reporterOptions cfg of
        None \<Rightarrow> defaultFilenameTemplate
      | Some ro \<Rightarrow>
          (case errorshotReporter ro of
             None \<Rightarrow> defaultFilenameTemplate
           | Some er \<Rightarrow>
               (case template er of
                  None \<Rightarrow> defaultFilenameTemplate
                | Some t \<Rightarrow> if t = [] then defaultFilenameTemplate else t)))"

text \<open>The constructor.\<close>

definition ErrorshotReporter :: "config \<Rightarrow> reporter" where
  "ErrorshotReporter cfg = \<lparr>config = cfg, filenameTemplate = getOptionFilenameTemplate cfg\<rparr>"

definition browsers :: "string list" where
  "browsers = [''chrome'', ''firefox'', ''ie'', ''edge'', ''opera'']"

text \<open>
  \<^verbatim>\<open>getBrowserFromScreenshotName\<close>. The variable \<^verbatim>\<open>browserName\<close> holds a string,
  \<^verbatim>\<open>false\<close> or \<^verbatim>\<open>null\<close>; the two last are \<open>None\<close>. The \<^verbatim>\<open>forEach\<close> is a fold over
  the list that overwrites the variable at every browser the file name includes.
\<close>

definition getBrowserFromScreenshotName :: "string \<Rightarrow> string" where
  "getBrowserFromScreenshotName fname =
     (let parsedFilenameParts = String_match re_underscores fname;
          browserName = parsedFilenameParts;
          browserName =
            (if falsy browserName \<or> \<not> String_startsWith fname ''ERROR''
             then foldl (\<lambda>acc browser. if String_includes fname browser then Some browser else acc)
                    None browsers
             else browserName)
      in (case browserName of
            None \<Rightarrow> ''unknown_browser''
          | Some b \<Rightarrow> if b = [] then ''unknown_browser'' else b))"

text \<open>
  \<^verbatim>\<open>getPlaceholderLookup\<close>: the object literal is the list of its keys and values in
  the order of the source; \<^verbatim>\<open>hasOwnProperty\<close> and the property read are \<open>map_of\<close>.
  The method calls \<^verbatim>\<open>filename.match\<close>, \<^verbatim>\<open>time.toJSON\<close>, \<^verbatim>\<open>toJSON().replace\<close> and
  \<^verbatim>\<open>text.toString\<close> throw, in this order, when their receiver is \<^verbatim>\<open>undefined\<close> or
  \<^verbatim>\<open>null\<close>.
\<close>

definition getPlaceholderLookup ::
  "('d \<Rightarrow> string option) \<Rightarrow> 'd screenshot \<Rightarrow> jserror + (string \<times> string) list" where
  "getPlaceholderLookup toJSON shot =
     (case filename shot of
        Value fname \<Rightarrow>
          (let browserName = getBrowserFromScreenshotName fname
           in (case time shot of
                 Value t \<Rightarrow>
                   (case toJSON t of
                      None \<Rightarrow> Inl TypeError
                    | Some json \<Rightarrow>
                        (case parent shot of
                           Value p \<Rightarrow>
                             (case title shot of
                                Value ti \<Rightarrow>
                                  Inr [(''capId'', browserName),
                                       (''browser'', browserName),
                                       (''browserName'', browserName),
                                       (''timestamp'',
                                          String_replace_global (re_char CHR '':'') (\<lambda>m. ''-'') json),
                                       (''parent'', slugify p ''-''),
                                       (''title'', slugify ti ''-'')]
                              | _ \<Rightarrow> Inl TypeError)
                         | _ \<Rightarrow> Inl TypeError))
               | _ \<Rightarrow> Inl TypeError))
      | _ \<Rightarrow> Inl TypeError)"

text \<open>
  The callback of \<^verbatim>\<open>replaceFilenameTemplatePlaceholders\<close> and the \<^verbatim>\<open>replace\<close> it is
  handed to: the substitution step.
\<close>

definition replacePlaceholder :: "(string \<times> string) list \<Rightarrow> string \<Rightarrow> string" where
  "replacePlaceholder placeholders m =
     (let matchNoDelimiter = String_replace_global (re_char CHR ''%'') (\<lambda>x. []) m
      in (case map_of placeholders matchNoDelimiter of
            Some v \<Rightarrow> v
          | None \<Rightarrow> m))"

definition substitutePlaceholders :: "(string \<times> string) list \<Rightarrow> string \<Rightarrow> string" where
  "substitutePlaceholders placeholders tmpl =
     String_replace_global re_placeholder (replacePlaceholder placeholders) tmpl"

definition replaceFilenameTemplatePlaceholders ::
  "('d \<Rightarrow> string option) \<Rightarrow> reporter \<Rightarrow> 'd screenshot \<Rightarrow> jserror + string" where
  "replaceFilenameTemplatePlaceholders toJSON this shot =
     (case getPlaceholderLookup toJSON shot of
        Inl e \<Rightarrow> Inl e
      | Inr placeholders \<Rightarrow> Inr (substitutePlaceholders placeholders (filenameTemplate this)))"

definition getScreenshotName ::
  "('d \<Rightarrow> string option) \<Rightarrow> reporter \<Rightarrow> 'd screenshot \<Rightarrow> jserror + string" where
  "getScreenshotName toJSON this shot =
     (case replaceFilenameTemplatePlaceholders toJSON this shot of
        Inl e \<Rightarrow> Inl e
      | Inr name \<Rightarrow> Inr (name @ ''.png''))"

text \<open>
  \<^verbatim>\<open>path.join\<close> belongs to the platform: on two strings it is the parameter
  \<open>pathJoin\<close>, on anything else it throws. The argument of \<^verbatim>\<open>buildScreenshotFilepath\<close>
  is the value read from a property, or a string the reporter computed (\<open>Value name\<close>).
\<close>

definition buildScreenshotFilepath ::
  "(string \<Rightarrow> string \<Rightarrow> string) \<Rightarrow> reporter \<Rightarrow> string property \<Rightarrow> jserror + string" where
  "buildScreenshotFilepath pathJoin this fname =
     (case screenshotPath (config this) of
        None \<Rightarrow> Inl TypeError
      | Some dir \<Rightarrow>
          (case fname of
             Value f \<Rightarrow> Inr (pathJoin dir f)
           | _ \<Rightarrow> Inl TypeError))"

text \<open>
  \<^verbatim>\<open>renameScreenshot\<close>, called without \<^verbatim>\<open>cb\<close>: one request to \<^verbatim>\<open>fs.rename\<close>, whose
  outcome \<open>fsRename old new\<close> (\<open>None\<close> for success, an error text otherwise) reaches the
  completion callback; on an error the callback gives two lines to \<^verbatim>\<open>this.log\<close>.
\<close>

definition renameScreenshot ::
  "(string \<Rightarrow> string \<Rightarrow> string option) \<Rightarrow> string \<Rightarrow> string \<Rightarrow> effects" where
  "renameScreenshot fsRename filepathOld filepathNew =
     \<lparr>renames = [(filepathOld, filepathNew)],
      logged =
        (case fsRename filepathOld filepathNew of
           None \<Rightarrow> []
         | Some err \<Rightarrow>
             log (''Failed to rename screenshot from '' @ [CHR 0x27] @ filepathOld @ [CHR 0x27]
                    @ '' to '' @ [CHR 0x27] @ filepathNew @ [CHR 0x27] @ '':'')
             @ log err)\<rparr>"

definition screenshotHasRequiredProperties :: "'d screenshot \<Rightarrow> bool \<times> string list" where
  "screenshotHasRequiredProperties shot =
     (let hasRequiredProperties =
            (hasOwnProperty (filename shot) \<and> hasOwnProperty (time shot)
             \<and> hasOwnProperty (parent shot) \<and> hasOwnProperty (title shot))
      in (hasRequiredProperties,
          if \<not> hasRequiredProperties then log ''Screenshot properties do not match.'' else []))"

text \<open>
  \<^verbatim>\<open>handleEventRunnerScreenshot\<close>: how the call ends (\<open>Inr\<close> the value returned,
  \<open>Inl\<close> the exception thrown) and the effects it had up to there. The statements run
  in the order of the source: the guard, the old path, the new name, the new path, the
  rename.
\<close>

definition handleEventRunnerScreenshot ::
  "('d \<Rightarrow> string option) \<Rightarrow> (string \<Rightarrow> string \<Rightarrow> string) \<Rightarrow> (string \<Rightarrow> string \<Rightarrow> string option)
     \<Rightarrow> reporter \<Rightarrow> 'd screenshot \<Rightarrow> (jserror + bool) \<times> effects" where
  "handleEventRunnerScreenshot toJSON pathJoin fsRename this shot =
     (case screenshotHasRequiredProperties shot of
        (ok, lines) \<Rightarrow>
          if \<not> ok then (Inr False, no_effects\<lparr>logged := lines\<rparr>)
          else
            (case buildScreenshotFilepath pathJoin this (filename shot) of
               Inl e \<Rightarrow> (Inl e, no_effects\<lparr>logged := lines\<rparr>)
             | Inr filepathOld \<Rightarrow>
                 (case getScreenshotName toJSON this shot of
                    Inl e \<Rightarrow> (Inl e, no_effects\<lparr>logged := lines\<rparr>)
                  | Inr name \<Rightarrow>
                      (case buildScreenshotFilepath pathJoin this (Value name) of
                         Inl e \<Rightarrow> (Inl e, no_effects\<lparr>logged := lines\<rparr>)
                       | Inr filepathNew \<Rightarrow>
                           (let eff = renameScreenshot fsRename filepathOld filepathNew
                            in (Inr True, eff\<lparr>logged := lines @ logged eff\<rparr>))))))"

section \<open>The revision of the reporter in src/lib/wdio-errorshot-reporter.js\<close>

text \<open>
  The sources hold the reporter twice. The sections above follow the revision that the test
  suite exercises (\<^verbatim>\<open>getBrowserFromScreenshotName\<close>, \<^verbatim>\<open>defaultFilenameTemplate\<close>,
  \<^verbatim>\<open>buildScreenshotFilepath\<close>). The file \<^verbatim>\<open>src/lib/wdio-errorshot-reporter.js\<close> is an earlier
  revision; the methods in which it differs are modelled here under the prefix \<open>lib_\<close>.
  Its \<^verbatim>\<open>this.log\<close> is the module \<^verbatim>\<open>helpers/log.js\<close>, which is not among the sources, so
  only the values returned and the requests to \<^verbatim>\<open>fs.rename\<close> are modelled. A value
  \<open>None\<close> returned by the handler is JavaScript's \<^verbatim>\<open>undefined\<close>; its
  \<^verbatim>\<open>getScreenshotFilepath\<close> is \<open>buildScreenshotFilepath\<close> under an older name.
\<close>

definition lib_getCapabilitiesFromScreenshotName :: "string \<Rightarrow> string" where
  "lib_getCapabilitiesFromScreenshotName fname =
     (case String_match re_underscores fname of None \<Rightarrow> [] | Some cap \<Rightarrow> cap)"

definition lib_getOptionFilenameTemplate :: "config \<Rightarrow> jserror + string" where
  "lib_getOptionFilenameTemplate cfg =
     (let defaultFormat = ''%capId%_%parent%-%title%_%timestamp%''
      in (case reporterOptions cfg of
            None \<Rightarrow> Inl TypeError
          | Some ro \<Rightarrow>
              (case errorshotReporter ro of
                 None \<Rightarrow> Inl TypeError
               | Some er \<Rightarrow> Inr (if falsy (template er) then defaultFormat
                                 else (case template er of Some t \<Rightarrow> t | None \<Rightarrow> defaultFormat)))))"

definition lib_getPlaceholderLookup ::
  "('d \<Rightarrow> string option) \<Rightarrow> 'd screenshot \<Rightarrow> jserror + (string \<times> string) list" where
  "lib_getPlaceholderLookup toJSON shot =
     (case filename shot of
        Value fname \<Rightarrow>
          (let browserName = lib_getCapabilitiesFromScreenshotName fname
           in (case time shot of
                 Value t \<Rightarrow>
                   (case toJSON t of
                      None \<Rightarrow> Inl TypeError
                    | Some json \<Rightarrow>
                        (case parent shot of
                           Value p \<Rightarrow>
                             (case title shot of
                                Value ti \<Rightarrow>
                                  Inr [(''capId'', browserName),
                                       (''browser'', browserName),
                                       (''browserName'', browserName),
                                       (''timestamp'',
                                          String_replace_global (re_char CHR '':'') (\<lambda>m. ''-'') json),
                                       (''parent'', slugify p ''-''),
                                       (''title'', slugify ti ''-'')]
                              | _ \<Rightarrow> Inl TypeError)
                         | _ \<Rightarrow> Inl TypeError))
               | _ \<Rightarrow> Inl TypeError))
      | _ \<Rightarrow> Inl TypeError)"

definition lib_getScreenshotName ::
  "('d \<Rightarrow> string option) \<Rightarrow> reporter \<Rightarrow> 'd screenshot \<Rightarrow> jserror + string" where
  "lib_getScreenshotName toJSON this shot =
     (case lib_getPlaceholderLookup toJSON shot of
        Inl e \<Rightarrow> Inl e
      | Inr placeholders \<Rightarrow>
          Inr (substitutePlaceholders placeholders (filenameTemplate this) @ ''.png''))"

definition lib_handleEventRunnerScreenshot ::
  "('d \<Rightarrow> string option) \<Rightarrow> (string \<Rightarrow> string \<Rightarrow> string) \<Rightarrow> reporter \<Rightarrow> 'd screenshot
     \<Rightarrow> (jserror + bool option) \<times> (string \<times> string) list" where
  "lib_handleEventRunnerScreenshot toJSON pathJoin this shot =
     (if \<not> (hasOwnProperty (filename shot) \<and> hasOwnProperty (time shot)
             \<and> hasOwnProperty (parent shot) \<and> hasOwnProperty (title shot))
      then (Inr (Some False), [])
      else
        (case buildScreenshotFilepath pathJoin this (filename shot) of
           Inl e \<Rightarrow> (Inl e, [])
         | Inr filepathOld \<Rightarrow>
             (case lib_getScreenshotName toJSON this shot of
                Inl e \<Rightarrow> (Inl e, [])
              | Inr name \<Rightarrow>
                  (case buildScreenshotFilepath pathJoin this (Value name) of
                     Inl e \<Rightarrow> (Inl e, [])
                   | Inr filepathNew \<Rightarrow> (Inr None, [(filepathOld, filepathNew)])))))"

section \<open>Notions of the specification\<close>

text \<open>
  The fallback of browser inference as the specification words it: of the known browser
  names that occur in the file name as substrings, the one latest in the list.
\<close>

definition lastKnownBrowser :: "string \<Rightarrow> string option" where
  "lastKnownBrowser fname =
     (case filter (\<lambda>b. sublist b fname) browsers of
        [] \<Rightarrow> None
      | b # bs \<Rightarrow> Some (last (b # bs)))"

text \<open>
  A template contains a placeholder token when some part of it is a percent sign, one or
  more word characters and a percent sign.
\<close>

definition containsPlaceholderToken :: "string \<Rightarrow> bool" where
  "containsPlaceholderToken t =
     (\<exists>pre key post. t = pre @ ''%'' @ key @ ''%'' @ post \<and> key \<noteq> [] \<and> list_all isWordChar key)"

text \<open>The characters of a slug: lower-case word characters and the delimiter.\<close>

definition isSlugChar :: "char \<Rightarrow> bool" where
  "isSlugChar c = ((isWordChar c \<and> \<not> isUpperChar c) \<or> c = CHR ''-'')"

section \<open>Properties\<close>

subsection \<open>String methods\<close>

lemma replace_char_map:
  "String_replace_global (re_char x) (\<lambda>m. [y]) s = map (\<lambda>c. if c = x then y else c) s"
  by (induction s) (simp_all add: re_char_def)


lemma String_startsWith_prefix: "String_startsWith s t = prefix t s"
  by (induction s t rule: String_startsWith.induct) auto

lemma String_includes_sublist: "String_includes s t = sublist t s"
  by (induction s) (simp_all add: String_startsWith_prefix sublist_Cons_right)

lemma foldl_last_match:
  "foldl (\<lambda>acc b. if P b then Some b else acc) a bs =
     (case filter P bs of [] \<Rightarrow> a | x # xs \<Rightarrow> Some (last (x # xs)))"
proof (induction bs arbitrary: a)
  case Nil
  show ?case by simp
next
  case (Cons b bs)
  show ?case
    by (cases "filter P bs") (simp_all add: Cons.IH)
qed

subsection \<open>Browser inference\<close>

lemma browsers_nonempty: "b \<in> set browsers \<Longrightarrow> b \<noteq> []"
  by (auto simp: browsers_def)

lemma lastKnownBrowser_in: "lastKnownBrowser f = Some b \<Longrightarrow> b \<in> set browsers"
proof -
  assume a: "lastKnownBrowser f = Some b"
  then obtain x xs where f: "filter (\<lambda>b. sublist b f) browsers = x # xs" and b: "b = last (x # xs)"
    by (auto simp: lastKnownBrowser_def split: list.splits)
  have "last (x # xs) \<in> set (x # xs)" by (rule last_in_set) simp
  then have "b \<in> set (filter (\<lambda>b. sublist b f) browsers)" using f b by simp
  then show ?thesis by simp
qed

lemma getBrowser_fallback:
  assumes "falsy (String_match re_underscores f) \<or> \<not> String_startsWith f ''ERROR''"
  shows "getBrowserFromScreenshotName f =
           (case lastKnownBrowser f of None \<Rightarrow> ''unknown_browser'' | Some b \<Rightarrow> b)"
proof (cases "lastKnownBrowser f")
  case None
  then show ?thesis using assms
    by (auto simp: getBrowserFromScreenshotName_def Let_def foldl_last_match
        String_includes_sublist lastKnownBrowser_def falsy_def split: list.splits)
next
  case (Some b)
  then have "b \<noteq> []" using lastKnownBrowser_in browsers_nonempty by blast
  then show ?thesis using assms Some
    by (auto simp: getBrowserFromScreenshotName_def Let_def foldl_last_match
        String_includes_sublist lastKnownBrowser_def falsy_def split: list.splits)
qed

lemma re_underscores_not_underscore: "CHR ''_'' \<noteq> c \<Longrightarrow> re_underscores (c # s) = None"
  by (auto simp: re_underscores_def)

lemma re_underscores_shape:
  assumes "CHR ''_'' \<notin> set cap" and "\<forall>c\<in>set cap. \<not> isLineTerminator c"
  shows "re_underscores (CHR ''_'' # cap @ CHR ''_'' # post) = Some cap"
proof -
  let ?P = "\<lambda>x. x \<noteq> CHR ''_'' \<and> \<not> isLineTerminator x"
  have "takeWhile ?P (cap @ CHR ''_'' # post) = cap @ takeWhile ?P (CHR ''_'' # post)"
    using assms by (intro takeWhile_append2) auto
  then have "takeWhile ?P (cap @ CHR ''_'' # post) = cap" by simp
  then show ?thesis by (simp add: re_underscores_def)
qed

lemma re_underscores_SomeD:
  assumes "re_underscores s = Some cap"
  shows "\<exists>post. s = CHR ''_'' # cap @ CHR ''_'' # post \<and> CHR ''_'' \<notin> set cap"
proof -
  let ?P = "\<lambda>x. x \<noteq> CHR ''_'' \<and> \<not> isLineTerminator x"
  from assms obtain cs where s: "s = CHR ''_'' # cs"
    by (auto simp: re_underscores_def split: list.splits if_splits)
  from assms s obtain ds where d: "drop (length (takeWhile ?P cs)) cs = CHR ''_'' # ds"
    and cap: "cap = takeWhile ?P cs"
    by (auto simp: re_underscores_def Let_def split: list.splits if_splits)
  have "cs = takeWhile ?P cs @ drop (length (takeWhile ?P cs)) cs"
    by (metis append_take_drop_id takeWhile_eq_take)
  then have "cs = cap @ CHR ''_'' # ds" using d cap by simp
  moreover have "CHR ''_'' \<notin> set cap" unfolding cap by (auto dest: set_takeWhileD)
  ultimately show ?thesis using s by blast
qed

lemma String_match_skip:
  "CHR ''_'' \<notin> set pre \<Longrightarrow> String_match re_underscores (pre @ s) = String_match re_underscores s"
  by (induction pre) (simp_all add: re_underscores_not_underscore)

lemma String_match_first_second_underscore:
  assumes "CHR ''_'' \<notin> set pre" and "CHR ''_'' \<notin> set cap" and "\<forall>c\<in>set cap. \<not> isLineTerminator c"
  shows "String_match re_underscores (pre @ CHR ''_'' # cap @ CHR ''_'' # post) = Some cap"
  using assms by (simp add: String_match_skip re_underscores_shape)

lemma String_match_SomeD:
  "String_match re_underscores f = Some cap \<Longrightarrow>
     \<exists>pre post. f = pre @ CHR ''_'' # cap @ CHR ''_'' # post \<and> CHR ''_'' \<notin> set cap"
proof (induction f)
  case Nil
  then show ?case by (simp add: re_underscores_def)
next
  case (Cons c cs)
  show ?case
  proof (cases "re_underscores (c # cs)")
    case None
    with Cons obtain pre post where "cs = pre @ CHR ''_'' # cap @ CHR ''_'' # post" "CHR ''_'' \<notin> set cap"
      by auto
    then have "c # cs = (c # pre) @ CHR ''_'' # cap @ CHR ''_'' # post" by simp
    with \<open>CHR ''_'' \<notin> set cap\<close> show ?thesis by blast
  next
    case (Some cap')
    with Cons.prems have "cap' = cap" by simp
    with Some obtain post where "c # cs = [] @ CHR ''_'' # cap @ CHR ''_'' # post" "CHR ''_'' \<notin> set cap"
      using re_underscores_SomeD by fastforce
    then show ?thesis by blast
  qed
qed

text \<open>
  Claim C1. When the file name starts with \<^verbatim>\<open>ERROR\<close> and the leftmost match of
  \<^verbatim>\<open>_(.*?)_\<close> captures a non-empty text, \<^verbatim>\<open>getBrowserFromScreenshotName\<close> returns that
  capture and nothing else; the capture holds no underscore and stands between two
  underscores of the file name.
\<close>

theorem getBrowser_ERROR_capture:
  assumes "String_startsWith fname ''ERROR''"
    and "String_match re_underscores fname = Some cap"
    and "cap \<noteq> []"
  shows "getBrowserFromScreenshotName fname = cap
         \<and> CHR ''_'' \<notin> set cap
         \<and> sublist (''_'' @ cap @ ''_'') fname"
proof -
  have r: "getBrowserFromScreenshotName fname = cap"
    using assms by (simp add: getBrowserFromScreenshotName_def Let_def falsy_def)
  from assms(2) obtain pre post where f: "fname = pre @ CHR ''_'' # cap @ CHR ''_'' # post"
    and n: "CHR ''_'' \<notin> set cap"
    using String_match_SomeD by blast
  from f have "fname = pre @ (''_'' @ cap @ ''_'') @ post" by simp
  then have "sublist (''_'' @ cap @ ''_'') fname" unfolding sublist_def by blast
  with r n show ?thesis by simp
qed

theorem getBrowser_ERROR_capture_witness:
  "String_startsWith ''ERROR_chrome_12345_67890.png'' ''ERROR''
   \<and> String_match re_underscores ''ERROR_chrome_12345_67890.png'' = Some ''chrome''
   \<and> getBrowserFromScreenshotName ''ERROR_chrome_12345_67890.png'' = ''chrome''"
proof -
  have a: "String_startsWith ''ERROR_chrome_12345_67890.png'' ''ERROR''" by code_simp
  have b: "String_match re_underscores ''ERROR_chrome_12345_67890.png'' = Some ''chrome''" by code_simp
  have c: "''chrome'' \<noteq> []" by simp
  from getBrowser_ERROR_capture [OF a b c] a b show ?thesis by simp
qed

lemma getBrowser_ERROR_between_underscores:
  assumes "CHR ''_'' \<notin> set pre" and "CHR ''_'' \<notin> set cap" and "\<forall>c\<in>set cap. \<not> isLineTerminator c"
    and "cap \<noteq> []"
  shows "getBrowserFromScreenshotName (''ERROR'' @ pre @ CHR ''_'' # cap @ CHR ''_'' # post) = cap"
proof -
  have "CHR ''_'' \<notin> set (''ERROR'' @ pre)" using assms(1) by simp
  then have "String_match re_underscores ((''ERROR'' @ pre) @ CHR ''_'' # cap @ CHR ''_'' # post) = Some cap"
    using assms(2,3) by (rule String_match_first_second_underscore)
  moreover have "String_startsWith (''ERROR'' @ pre @ CHR ''_'' # cap @ CHR ''_'' # post) ''ERROR''"
    by (simp add: String_startsWith_prefix)
  ultimately show ?thesis using assms(4)
    by (simp add: getBrowserFromScreenshotName_def Let_def falsy_def)
qed

text \<open>
  Claim C2 says that a file name whose capture is empty yields \<^verbatim>\<open>unknown_browser\<close>. The
  capture of \<^verbatim>\<open>ERROR__chrome_1.png\<close> is empty, and the fallback finds \<^verbatim>\<open>chrome\<close> in it.
\<close>

theorem getBrowser_empty_capture_counterexample:
  "String_match re_underscores ''ERROR__chrome_1.png'' = Some []
   \<and> getBrowserFromScreenshotName ''ERROR__chrome_1.png'' = ''chrome''
   \<and> getBrowserFromScreenshotName ''ERROR__chrome_1.png'' \<noteq> ''unknown_browser''"
  by code_simp

text \<open>
  Claim C2, amended. For a file name whose capture is empty, browser inference never returns
  the empty string: it returns the result of the fallback, which is the known browser name
  latest in the list among those the file name contains, and \<^verbatim>\<open>unknown_browser\<close> when
  it contains none; for \<^verbatim>\<open>ERROR__12345_67890.png\<close> it returns \<^verbatim>\<open>unknown_browser\<close>.
\<close>

theorem getBrowser_empty_capture:
  assumes "String_match re_underscores fname = Some []"
  shows "getBrowserFromScreenshotName fname \<noteq> []
         \<and> getBrowserFromScreenshotName fname =
             (case lastKnownBrowser fname of None \<Rightarrow> ''unknown_browser'' | Some b \<Rightarrow> b)
         \<and> getBrowserFromScreenshotName ''ERROR__12345_67890.png'' = ''unknown_browser''"
proof -
  have fb: "getBrowserFromScreenshotName fname =
             (case lastKnownBrowser fname of None \<Rightarrow> ''unknown_browser'' | Some b \<Rightarrow> b)"
    using assms by (intro getBrowser_fallback) (simp add: falsy_def)
  have ne: "getBrowserFromScreenshotName fname \<noteq> []"
  proof (cases "lastKnownBrowser fname")
    case None
    with fb show ?thesis by simp
  next
    case (Some b)
    with fb lastKnownBrowser_in [OF Some] browsers_nonempty show ?thesis by auto
  qed
  have ex: "getBrowserFromScreenshotName ''ERROR__12345_67890.png'' = ''unknown_browser''"
    by code_simp
  from fb ne ex show ?thesis by simp
qed

theorem getBrowser_empty_capture_witness:
  "String_match re_underscores ''ERROR__12345_67890.png'' = Some []
   \<and> lastKnownBrowser ''ERROR__12345_67890.png'' = None
   \<and> getBrowserFromScreenshotName ''ERROR__12345_67890.png'' \<noteq> []
   \<and> getBrowserFromScreenshotName ''ERROR__12345_67890.png'' = ''unknown_browser''"
proof -
  have a: "String_match re_underscores ''ERROR__12345_67890.png'' = Some []" by code_simp
  have b: "lastKnownBrowser ''ERROR__12345_67890.png'' = None" by code_simp
  from getBrowser_empty_capture [OF a] a b show ?thesis by simp
qed

text \<open>
  Claim C3. For a file name that does not start with \<^verbatim>\<open>ERROR\<close>, or in which
  \<^verbatim>\<open>_(.*?)_\<close> finds no match, browser inference is the substring search over
  chrome, firefox, ie, edge, opera: of the names that are substrings of the file name the
  one latest in the list is returned, and \<^verbatim>\<open>unknown_browser\<close> when there is none.
\<close>

theorem getBrowser_fallback_last_match:
  assumes "\<not> String_startsWith fname ''ERROR'' \<or> String_match re_underscores fname = None"
  shows "getBrowserFromScreenshotName fname =
           (case filter (\<lambda>b. sublist b fname) [''chrome'', ''firefox'', ''ie'', ''edge'', ''opera''] of
              [] \<Rightarrow> ''unknown_browser''
            | b # bs \<Rightarrow> last (b # bs))"
proof -
  have "falsy (String_match re_underscores fname) \<or> \<not> String_startsWith fname ''ERROR''"
    using assms by (auto simp: falsy_def)
  then have "getBrowserFromScreenshotName fname =
      (case lastKnownBrowser fname of None \<Rightarrow> ''unknown_browser'' | Some b \<Rightarrow> b)"
    by (rule getBrowser_fallback)
  then show ?thesis
    by (simp add: lastKnownBrowser_def browsers_def split: list.splits)
qed

theorem getBrowser_fallback_last_match_witness:
  "\<not> String_startsWith ''my_firefox_chrome.png'' ''ERROR''
   \<and> filter (\<lambda>b. sublist b ''my_firefox_chrome.png'') [''chrome'', ''firefox'', ''ie'', ''edge'', ''opera'']
       = [''chrome'', ''firefox'']
   \<and> getBrowserFromScreenshotName ''my_firefox_chrome.png'' = ''firefox''
   \<and> String_match re_underscores ''ERROR-screen.png'' = None
   \<and> getBrowserFromScreenshotName ''ERROR-screen.png'' = ''unknown_browser''"
proof -
  have a: "\<not> String_startsWith ''my_firefox_chrome.png'' ''ERROR''" by code_simp
  have f: "filter (\<lambda>b. sublist b ''my_firefox_chrome.png'') [''chrome'', ''firefox'', ''ie'', ''edge'', ''opera'']
       = [''chrome'', ''firefox'']"
    by (simp add: String_includes_sublist [symmetric])
  have b: "String_match re_underscores ''ERROR-screen.png'' = None" by code_simp
  have g: "filter (\<lambda>b. sublist b ''ERROR-screen.png'') [''chrome'', ''firefox'', ''ie'', ''edge'', ''opera'']
       = []"
    by (simp add: String_includes_sublist [symmetric])
  from getBrowser_fallback_last_match [of "''my_firefox_chrome.png''"] a f
  have 1: "getBrowserFromScreenshotName ''my_firefox_chrome.png'' = ''firefox''" by simp
  from getBrowser_fallback_last_match [of "''ERROR-screen.png''"] b g
  have 2: "getBrowserFromScreenshotName ''ERROR-screen.png'' = ''unknown_browser''" by simp
  from a f b 1 2 show ?thesis by simp
qed

text \<open>
  Claim C8 says that the result never contains an upper-case letter. The capture is returned
  as it stands in the file name: \<^verbatim>\<open>ERROR_Chrome_1_2.png\<close> yields \<^verbatim>\<open>Chrome\<close>.
\<close>

theorem getBrowser_lowercase_counterexample:
  "getBrowserFromScreenshotName ''ERROR_Chrome_1_2.png'' = ''Chrome''
   \<and> list_ex isUpperChar (getBrowserFromScreenshotName ''ERROR_Chrome_1_2.png'')"
  by code_simp

lemma browsers_lowercase: "b \<in> set browsers \<Longrightarrow> \<not> list_ex isUpperChar b"
  by (auto simp: browsers_def isUpperChar_def charCode_def)

lemma getBrowser_cases:
  "getBrowserFromScreenshotName fname = ''unknown_browser''
   \<or> getBrowserFromScreenshotName fname \<in> set browsers
   \<or> (String_startsWith fname ''ERROR''
       \<and> String_match re_underscores fname = Some (getBrowserFromScreenshotName fname)
       \<and> getBrowserFromScreenshotName fname \<noteq> [])"
proof (cases "falsy (String_match re_underscores fname) \<or> \<not> String_startsWith fname ''ERROR''")
  case True
  then have fb: "getBrowserFromScreenshotName fname =
      (case lastKnownBrowser fname of None \<Rightarrow> ''unknown_browser'' | Some b \<Rightarrow> b)"
    by (rule getBrowser_fallback)
  show ?thesis
  proof (cases "lastKnownBrowser fname")
    case None
    with fb show ?thesis by simp
  next
    case (Some b)
    with fb lastKnownBrowser_in [OF Some] show ?thesis by simp
  qed
next
  case False
  then show ?thesis
    by (auto simp: getBrowserFromScreenshotName_def Let_def falsy_def split: option.splits)
qed

text \<open>
  Claim C8, amended. For every file name, the result of browser inference is the sentinel
  \<^verbatim>\<open>unknown_browser\<close>, one of the five lower-case names chrome, firefox, ie, edge, opera,
  or, when the file name starts with \<^verbatim>\<open>ERROR\<close>, the non-empty capture of \<^verbatim>\<open>_(.*?)_\<close>
  returned verbatim; so the result contains an upper-case letter only in the last case,
  when the capture does.
\<close>

theorem getBrowser_uppercase_only_from_capture:
  "(getBrowserFromScreenshotName fname = ''unknown_browser''
    \<or> getBrowserFromScreenshotName fname \<in> set [''chrome'', ''firefox'', ''ie'', ''edge'', ''opera'']
    \<or> (String_startsWith fname ''ERROR''
        \<and> String_match re_underscores fname = Some (getBrowserFromScreenshotName fname)
        \<and> getBrowserFromScreenshotName fname \<noteq> []))
   \<and> (\<not> list_ex isUpperChar (getBrowserFromScreenshotName fname)
       \<or> (String_startsWith fname ''ERROR''
           \<and> String_match re_underscores fname = Some (getBrowserFromScreenshotName fname)
           \<and> list_ex isUpperChar (getBrowserFromScreenshotName fname)))
   \<and> \<not> list_ex isUpperChar ''unknown_browser''
   \<and> \<not> list_ex (list_ex isUpperChar) [''chrome'', ''firefox'', ''ie'', ''edge'', ''opera'']"
proof -
  have u: "\<not> list_ex isUpperChar ''unknown_browser''"
    by (simp add: isUpperChar_def charCode_def)
  have l: "\<not> list_ex (list_ex isUpperChar) [''chrome'', ''firefox'', ''ie'', ''edge'', ''opera'']"
    by (simp add: isUpperChar_def charCode_def)
  have t: "getBrowserFromScreenshotName fname = ''unknown_browser''
    \<or> getBrowserFromScreenshotName fname \<in> set [''chrome'', ''firefox'', ''ie'', ''edge'', ''opera'']
    \<or> (String_startsWith fname ''ERROR''
        \<and> String_match re_underscores fname = Some (getBrowserFromScreenshotName fname)
        \<and> getBrowserFromScreenshotName fname \<noteq> [])"
    using getBrowser_cases [of fname] by (simp only: browsers_def)
  have c: "\<not> list_ex isUpperChar (getBrowserFromScreenshotName fname)
       \<or> (String_startsWith fname ''ERROR''
           \<and> String_match re_underscores fname = Some (getBrowserFromScreenshotName fname)
           \<and> list_ex isUpperChar (getBrowserFromScreenshotName fname))"
    using getBrowser_cases [of fname] u browsers_lowercase by metis
  from t c u l show ?thesis by blast
qed

theorem getBrowser_uppercase_only_from_capture_witness:
  "\<not> String_startsWith ''Shot_edge_ie.png'' ''ERROR''
   \<and> getBrowserFromScreenshotName ''Shot_edge_ie.png'' \<in> set [''chrome'', ''firefox'', ''ie'', ''edge'', ''opera'']
   \<and> \<not> list_ex isUpperChar (getBrowserFromScreenshotName ''Shot_edge_ie.png'')"
proof -
  have a: "\<not> String_startsWith ''Shot_edge_ie.png'' ''ERROR''" by code_simp
  have b: "getBrowserFromScreenshotName ''Shot_edge_ie.png'' \<noteq> ''unknown_browser''" by code_simp
  from getBrowser_uppercase_only_from_capture [of "''Shot_edge_ie.png''"] a b show ?thesis by blast
qed

subsection \<open>Configuration\<close>

text \<open>
  Claim C5. When the configuration supplies no template (\<^verbatim>\<open>reporterOptions\<close> missing,
  \<^verbatim>\<open>errorshotReporter\<close> missing, or \<^verbatim>\<open>template\<close> missing or empty), the template the
  constructor stores in the reporter is \<^verbatim>\<open>%timestamp%_%capId%_%parent%-%title%\<close>.
\<close>

theorem default_template_when_none_supplied:
  "(reporterOptions cfg = None
      \<longrightarrow> filenameTemplate (ErrorshotReporter cfg) = ''%timestamp%_%capId%_%parent%-%title%'')
   \<and> (reporterOptions cfg = Some ro \<and> errorshotReporter ro = None
      \<longrightarrow> filenameTemplate (ErrorshotReporter cfg) = ''%timestamp%_%capId%_%parent%-%title%'')
   \<and> (reporterOptions cfg = Some ro \<and> errorshotReporter ro = Some er
        \<and> (template er = None \<or> template er = Some [])
      \<longrightarrow> filenameTemplate (ErrorshotReporter cfg) = ''%timestamp%_%capId%_%parent%-%title%'')"
  by (auto simp: ErrorshotReporter_def getOptionFilenameTemplate_def defaultFilenameTemplate_def)

theorem default_template_when_none_supplied_witness:
  "filenameTemplate (ErrorshotReporter \<lparr>screenshotPath = Some ''errorShots'', reporterOptions = None\<rparr>)
     = ''%timestamp%_%capId%_%parent%-%title%''
   \<and> filenameTemplate (ErrorshotReporter
        \<lparr>screenshotPath = Some ''errorShots'', reporterOptions = Some \<lparr>errorshotReporter = None\<rparr>\<rparr>)
     = ''%timestamp%_%capId%_%parent%-%title%''
   \<and> filenameTemplate (ErrorshotReporter
        \<lparr>screenshotPath = Some ''errorShots'',
         reporterOptions = Some \<lparr>errorshotReporter = Some \<lparr>template = Some []\<rparr>\<rparr>\<rparr>)
     = ''%timestamp%_%capId%_%parent%-%title%''
   \<and> filenameTemplate (ErrorshotReporter
        \<lparr>screenshotPath = Some ''errorShots'',
         reporterOptions = Some \<lparr>errorshotReporter = Some \<lparr>template = None\<rparr>\<rparr>\<rparr>)
     = ''%timestamp%_%capId%_%parent%-%title%''"
  using
    default_template_when_none_supplied
      [of "\<lparr>screenshotPath = Some ''errorShots'', reporterOptions = None\<rparr>"]
    default_template_when_none_supplied
      [of "\<lparr>screenshotPath = Some ''errorShots'', reporterOptions = Some \<lparr>errorshotReporter = None\<rparr>\<rparr>"
          "\<lparr>errorshotReporter = None\<rparr>"]
    default_template_when_none_supplied
      [of "\<lparr>screenshotPath = Some ''errorShots'',
            reporterOptions = Some \<lparr>errorshotReporter = Some \<lparr>template = Some []\<rparr>\<rparr>\<rparr>"
          "\<lparr>errorshotReporter = Some \<lparr>template = Some []\<rparr>\<rparr>" "\<lparr>template = Some []\<rparr>"]
    default_template_when_none_supplied
      [of "\<lparr>screenshotPath = Some ''errorShots'',
            reporterOptions = Some \<lparr>errorshotReporter = Some \<lparr>template = None\<rparr>\<rparr>\<rparr>"
          "\<lparr>errorshotReporter = Some \<lparr>template = None\<rparr>\<rparr>" "\<lparr>template = None\<rparr>"]
  by simp

lemma supplied_template_is_used:
  "reporterOptions cfg = Some ro \<Longrightarrow> errorshotReporter ro = Some er \<Longrightarrow> template er = Some t
     \<Longrightarrow> t \<noteq> [] \<Longrightarrow> filenameTemplate (ErrorshotReporter cfg) = t"
  by (simp add: ErrorshotReporter_def getOptionFilenameTemplate_def)

subsection \<open>Placeholder lookup and event handler\<close>

text \<open>
  Claim C10. For a valid screenshot record (the four properties hold values and the time
  has a \<^verbatim>\<open>toJSON\<close> text), the entries \<^verbatim>\<open>capId\<close>, \<^verbatim>\<open>browser\<close> and \<^verbatim>\<open>browserName\<close> of
  the placeholder lookup are equal (the inferred browser), and the entry \<^verbatim>\<open>timestamp\<close>
  is the \<^verbatim>\<open>toJSON\<close> text of the time with every colon replaced by a dash, so it contains
  no colon.
\<close>

theorem placeholder_lookup_aliases_and_timestamp:
  assumes "filename shot = Value fname" and "time shot = Value t" and "toJSON t = Some json"
    and "parent shot = Value p" and "title shot = Value ti"
  shows "\<exists>ps. getPlaceholderLookup toJSON shot = Inr ps
           \<and> map_of ps ''capId'' = Some (getBrowserFromScreenshotName fname)
           \<and> map_of ps ''browser'' = map_of ps ''capId''
           \<and> map_of ps ''browserName'' = map_of ps ''capId''
           \<and> map_of ps ''timestamp''
               = Some (map (\<lambda>c. if c = CHR '':'' then CHR ''-'' else c) json)
           \<and> (\<forall>v. map_of ps ''timestamp'' = Some v \<longrightarrow> CHR '':'' \<notin> set v)"
  using assms by (auto simp: getPlaceholderLookup_def Let_def replace_char_map)

theorem placeholder_lookup_aliases_and_timestamp_witness:
  "\<exists>ps. getPlaceholderLookup (\<lambda>d. d)
           \<lparr>filename = Value ''ERROR_chrome_12345_67890.png'',
            time = Value (Some ''2018-03-01T10:20:30.456Z''),
            parent = Value ''parent'', title = Value ''title''\<rparr> = Inr ps
         \<and> map_of ps ''capId'' = Some ''chrome''
         \<and> map_of ps ''browser'' = Some ''chrome''
         \<and> map_of ps ''browserName'' = Some ''chrome''
         \<and> map_of ps ''timestamp'' = Some ''2018-03-01T10-20-30.456Z''"
proof -
  let ?shot = "\<lparr>filename = Value ''ERROR_chrome_12345_67890.png'',
            time = Value (Some ''2018-03-01T10:20:30.456Z''),
            parent = Value ''parent'', title = Value ''title''\<rparr>"
  have b: "getBrowserFromScreenshotName ''ERROR_chrome_12345_67890.png'' = ''chrome''" by code_simp
  have "\<exists>ps. getPlaceholderLookup (\<lambda>d. d) ?shot = Inr ps
           \<and> map_of ps ''capId'' = Some (getBrowserFromScreenshotName ''ERROR_chrome_12345_67890.png'')
           \<and> map_of ps ''browser'' = map_of ps ''capId''
           \<and> map_of ps ''browserName'' = map_of ps ''capId''
           \<and> map_of ps ''timestamp''
               = Some (map (\<lambda>c. if c = CHR '':'' then CHR ''-'' else c) ''2018-03-01T10:20:30.456Z'')
           \<and> (\<forall>v. map_of ps ''timestamp'' = Some v \<longrightarrow> CHR '':'' \<notin> set v)"
    by (rule placeholder_lookup_aliases_and_timestamp) simp_all
  then obtain ps where "getPlaceholderLookup (\<lambda>d. d) ?shot = Inr ps"
    "map_of ps ''capId'' = Some (getBrowserFromScreenshotName ''ERROR_chrome_12345_67890.png'')"
    "map_of ps ''browser'' = map_of ps ''capId''"
    "map_of ps ''browserName'' = map_of ps ''capId''"
    "map_of ps ''timestamp''
               = Some (map (\<lambda>c. if c = CHR '':'' then CHR ''-'' else c) ''2018-03-01T10:20:30.456Z'')"
    by blast
  then show ?thesis using b by auto
qed

lemma buildScreenshotFilepath_Value:
  "screenshotPath (config this) = Some dir \<Longrightarrow>
     buildScreenshotFilepath pathJoin this (Value f) = Inr (pathJoin dir f)"
  by (simp add: buildScreenshotFilepath_def)

lemma getScreenshotName_valid:
  assumes "filename shot = Value fname" and "time shot = Value t" and "toJSON t = Some json"
    and "parent shot = Value p" and "title shot = Value ti"
  shows "\<exists>name. getScreenshotName toJSON this shot = Inr name"
  using assms
  by (simp add: getScreenshotName_def replaceFilenameTemplatePlaceholders_def
      getPlaceholderLookup_def Let_def)

lemma getScreenshotName_invalid:
  assumes "filename shot \<noteq> Absent" and "time shot \<noteq> Absent"
    and "parent shot \<noteq> Absent" and "title shot \<noteq> Absent"
    and "filename shot = Undefined \<or> time shot = Undefined \<or> parent shot = Undefined
         \<or> title shot = Undefined \<or> (\<exists>t. time shot = Value t \<and> toJSON t = None)"
  shows "getScreenshotName toJSON this shot = Inl TypeError"
  using assms
  by (auto simp: getScreenshotName_def replaceFilenameTemplatePlaceholders_def
      getPlaceholderLookup_def Let_def split: property.splits option.splits)

text \<open>
  Claim C7 says that a record with all four fields always gets one rename and the value
  \<^verbatim>\<open>true\<close>. The guard asks \<^verbatim>\<open>hasOwnProperty\<close> only: a record that owns the four
  properties and whose time is an invalid date makes \<^verbatim>\<open>toJSON().replace\<close> throw, before
  any rename and without a value returned.
\<close>

theorem handler_invalid_date_counterexample:
  "hasOwnProperty (filename \<lparr>filename = Value ''ERROR_chrome_12345_1337.png'', time = Value (None :: string option),
        parent = Value ''parent text here'', title = Value ''title text here''\<rparr>)
   \<and> hasOwnProperty (time \<lparr>filename = Value ''ERROR_chrome_12345_1337.png'', time = Value (None :: string option),
        parent = Value ''parent text here'', title = Value ''title text here''\<rparr>)
   \<and> hasOwnProperty (parent \<lparr>filename = Value ''ERROR_chrome_12345_1337.png'', time = Value (None :: string option),
        parent = Value ''parent text here'', title = Value ''title text here''\<rparr>)
   \<and> hasOwnProperty (title \<lparr>filename = Value ''ERROR_chrome_12345_1337.png'', time = Value (None :: string option),
        parent = Value ''parent text here'', title = Value ''title text here''\<rparr>)
   \<and> handleEventRunnerScreenshot (\<lambda>d. d) (\<lambda>dir f. dir @ ''/'' @ f) (\<lambda>old new. None)
        (ErrorshotReporter \<lparr>screenshotPath = Some ''errorShots'', reporterOptions = None\<rparr>)
        \<lparr>filename = Value ''ERROR_chrome_12345_1337.png'', time = Value (None :: string option),
         parent = Value ''parent text here'', title = Value ''title text here''\<rparr>
       = (Inl TypeError, \<lparr>renames = [], logged = []\<rparr>)"
  by code_simp

text \<open>
  Claim C7, amended. When the record does not own one of \<^verbatim>\<open>filename\<close>, \<^verbatim>\<open>time\<close>,
  \<^verbatim>\<open>parent\<close>, \<^verbatim>\<open>title\<close>, the handler returns \<^verbatim>\<open>false\<close> and requests no rename. When
  the record owns all four with values (strings, and a time that has a \<^verbatim>\<open>toJSON\<close> text)
  and the configuration has a \<^verbatim>\<open>screenshotPath\<close>, the handler requests exactly one rename,
  from the old path to the path of the computed name, and returns \<^verbatim>\<open>true\<close>, whatever
  outcome \<open>fsRename\<close> the rename has. In every other case (all four owned, but one of
  them \<^verbatim>\<open>undefined\<close>, the date invalid, or no \<^verbatim>\<open>screenshotPath\<close>) the handler throws a
  \<^verbatim>\<open>TypeError\<close>, requests no rename and returns nothing.
\<close>

theorem handler_result_and_rename_calls:
  "(filename shot = Absent \<or> time shot = Absent \<or> parent shot = Absent \<or> title shot = Absent
      \<longrightarrow> (\<exists>eff. handleEventRunnerScreenshot toJSON pathJoin fsRename this shot = (Inr False, eff)
                \<and> renames eff = []))
   \<and> (filename shot = Value fname \<and> time shot = Value t \<and> toJSON t = Some json
        \<and> parent shot = Value p \<and> title shot = Value ti
        \<and> screenshotPath (config this) = Some dir
      \<longrightarrow> (\<exists>eff name. handleEventRunnerScreenshot toJSON pathJoin fsRename this shot = (Inr True, eff)
                \<and> getScreenshotName toJSON this shot = Inr name
                \<and> renames eff = [(pathJoin dir fname, pathJoin dir name)]))
   \<and> (filename shot \<noteq> Absent \<and> time shot \<noteq> Absent \<and> parent shot \<noteq> Absent \<and> title shot \<noteq> Absent
        \<and> (filename shot = Undefined \<or> time shot = Undefined \<or> parent shot = Undefined
             \<or> title shot = Undefined \<or> (\<exists>d. time shot = Value d \<and> toJSON d = None)
             \<or> screenshotPath (config this) = None)
      \<longrightarrow> (\<exists>eff. handleEventRunnerScreenshot toJSON pathJoin fsRename this shot = (Inl TypeError, eff)
                \<and> renames eff = []))"
proof (intro conjI impI)
  assume "filename shot = Absent \<or> time shot = Absent \<or> parent shot = Absent \<or> title shot = Absent"
  then show "\<exists>eff. handleEventRunnerScreenshot toJSON pathJoin fsRename this shot = (Inr False, eff)
                \<and> renames eff = []"
    by (auto simp: handleEventRunnerScreenshot_def screenshotHasRequiredProperties_def
        hasOwnProperty_def Let_def no_effects_def)
next
  assume a: "filename shot = Value fname \<and> time shot = Value t \<and> toJSON t = Some json
        \<and> parent shot = Value p \<and> title shot = Value ti
        \<and> screenshotPath (config this) = Some dir"
  then obtain name where n: "getScreenshotName toJSON this shot = Inr name"
    using getScreenshotName_valid [of shot fname t toJSON json p ti "this"] by blast
  from a have ok: "screenshotHasRequiredProperties shot = (True, [])"
    by (simp add: screenshotHasRequiredProperties_def hasOwnProperty_def)
  from a have b: "buildScreenshotFilepath pathJoin this (filename shot) = Inr (pathJoin dir fname)"
    "buildScreenshotFilepath pathJoin this (Value name) = Inr (pathJoin dir name)"
    by (simp_all add: buildScreenshotFilepath_Value)
  have "handleEventRunnerScreenshot toJSON pathJoin fsRename this shot
          = (Inr True, (renameScreenshot fsRename (pathJoin dir fname) (pathJoin dir name))
               \<lparr>logged := [] @ logged (renameScreenshot fsRename (pathJoin dir fname) (pathJoin dir name))\<rparr>)"
    by (simp add: handleEventRunnerScreenshot_def ok n b Let_def)
  moreover have "renames ((renameScreenshot fsRename (pathJoin dir fname) (pathJoin dir name))
               \<lparr>logged := [] @ logged (renameScreenshot fsRename (pathJoin dir fname) (pathJoin dir name))\<rparr>)
          = [(pathJoin dir fname, pathJoin dir name)]"
    by (simp add: renameScreenshot_def)
  ultimately show "\<exists>eff name. handleEventRunnerScreenshot toJSON pathJoin fsRename this shot = (Inr True, eff)
                \<and> getScreenshotName toJSON this shot = Inr name
                \<and> renames eff = [(pathJoin dir fname, pathJoin dir name)]"
    using n by blast
next
  assume a: "filename shot \<noteq> Absent \<and> time shot \<noteq> Absent \<and> parent shot \<noteq> Absent \<and> title shot \<noteq> Absent
        \<and> (filename shot = Undefined \<or> time shot = Undefined \<or> parent shot = Undefined
             \<or> title shot = Undefined \<or> (\<exists>d. time shot = Value d \<and> toJSON d = None)
             \<or> screenshotPath (config this) = None)"
  then have ok: "screenshotHasRequiredProperties shot = (True, [])"
    by (simp add: screenshotHasRequiredProperties_def hasOwnProperty_def)
  show "\<exists>eff. handleEventRunnerScreenshot toJSON pathJoin fsRename this shot = (Inl TypeError, eff)
                \<and> renames eff = []"
  proof (cases "screenshotPath (config this)")
    case None
    then show ?thesis
      by (simp add: handleEventRunnerScreenshot_def ok buildScreenshotFilepath_def no_effects_def)
  next
    case (Some dir)
    with a have "getScreenshotName toJSON this shot = Inl TypeError"
      by (intro getScreenshotName_invalid) auto
    then show ?thesis
      by (cases "filename shot")
        (simp_all add: handleEventRunnerScreenshot_def ok buildScreenshotFilepath_def Some
          no_effects_def)
  qed
qed

theorem handler_result_and_rename_calls_witness:
  "(\<exists>eff. handleEventRunnerScreenshot (\<lambda>d. d) (\<lambda>dir f. dir @ ''/'' @ f) (\<lambda>old new. Some ''ENOENT'')
            (ErrorshotReporter \<lparr>screenshotPath = Some ''errorShots'', reporterOptions = None\<rparr>)
            \<lparr>filename = Value ''ERROR_corrupted_screenshot_data.png'', time = Absent,
             parent = Absent, title = Absent\<rparr> = (Inr False, eff)
          \<and> renames eff = [])
   \<and> (\<exists>eff. handleEventRunnerScreenshot (\<lambda>d. d) (\<lambda>dir f. dir @ ''/'' @ f) (\<lambda>old new. Some ''ENOENT'')
            (ErrorshotReporter \<lparr>screenshotPath = Some ''errorShots'', reporterOptions = None\<rparr>)
            \<lparr>filename = Value ''ERROR_chrome_12345_1337.png'',
             time = Value (Some ''2018-03-01T10:20:30.456Z''),
             parent = Value ''parent text here'', title = Value ''title text here''\<rparr> = (Inr True, eff)
          \<and> renames eff = [(''errorShots/ERROR_chrome_12345_1337.png'',
               ''errorShots/2018-03-01T10-20-30.456Z_chrome_parent-text-here-title-text-here.png'')])
   \<and> (\<exists>eff. handleEventRunnerScreenshot (\<lambda>d. d) (\<lambda>dir f. dir @ ''/'' @ f) (\<lambda>old new. Some ''ENOENT'')
            (ErrorshotReporter \<lparr>screenshotPath = None, reporterOptions = None\<rparr>)
            \<lparr>filename = Value ''ERROR_chrome_12345_1337.png'',
             time = Value (Some ''2018-03-01T10:20:30.456Z''),
             parent = Undefined, title = Value ''title text here''\<rparr> = (Inl TypeError, eff)
          \<and> renames eff = [])"
proof -
  let ?rep = "ErrorshotReporter \<lparr>screenshotPath = Some ''errorShots'', reporterOptions = None\<rparr>"
  let ?norep = "ErrorshotReporter \<lparr>screenshotPath = None, reporterOptions = None\<rparr>"
  let ?bad = "\<lparr>filename = Value ''ERROR_corrupted_screenshot_data.png'',
             time = Absent :: string option property, parent = Absent, title = Absent\<rparr>"
  let ?good = "\<lparr>filename = Value ''ERROR_chrome_12345_1337.png'',
             time = Value (Some ''2018-03-01T10:20:30.456Z''),
             parent = Value ''parent text here'', title = Value ''title text here''\<rparr>"
  let ?undef = "\<lparr>filename = Value ''ERROR_chrome_12345_1337.png'',
             time = Value (Some ''2018-03-01T10:20:30.456Z''),
             parent = Undefined, title = Value ''title text here''\<rparr>"
  have n: "getScreenshotName (\<lambda>d. d) ?rep ?good
             = Inr ''2018-03-01T10-20-30.456Z_chrome_parent-text-here-title-text-here.png''"
    by code_simp
  have p: "screenshotPath (config ?rep) = Some ''errorShots''" by (simp add: ErrorshotReporter_def)
  have q: "screenshotPath (config ?norep) = None" by (simp add: ErrorshotReporter_def)
  have 1: "\<exists>eff. handleEventRunnerScreenshot (\<lambda>d. d) (\<lambda>dir f. dir @ ''/'' @ f) (\<lambda>old new. Some ''ENOENT'')
            ?rep ?bad = (Inr False, eff) \<and> renames eff = []"
    using handler_result_and_rename_calls
      [of ?bad "\<lambda>d. d" "\<lambda>dir f. dir @ ''/'' @ f" "\<lambda>old new. Some ''ENOENT''" ?rep, THEN conjunct1]
    by simp
  have 2: "\<exists>eff. handleEventRunnerScreenshot (\<lambda>d. d) (\<lambda>dir f. dir @ ''/'' @ f) (\<lambda>old new. Some ''ENOENT'')
            ?rep ?good = (Inr True, eff)
          \<and> renames eff = [(''errorShots/ERROR_chrome_12345_1337.png'',
               ''errorShots/2018-03-01T10-20-30.456Z_chrome_parent-text-here-title-text-here.png'')]"
    using handler_result_and_rename_calls
      [of ?good "\<lambda>d. d" "\<lambda>dir f. dir @ ''/'' @ f" "\<lambda>old new. Some ''ENOENT''" ?rep
          "''ERROR_chrome_12345_1337.png''" "Some ''2018-03-01T10:20:30.456Z''"
          "''2018-03-01T10:20:30.456Z''" "''parent text here''" "''title text here''"
          "''errorShots''", THEN conjunct2, THEN conjunct1]
      n p
    by auto
  have 3: "\<exists>eff. handleEventRunnerScreenshot (\<lambda>d. d) (\<lambda>dir f. dir @ ''/'' @ f) (\<lambda>old new. Some ''ENOENT'')
            ?norep ?undef = (Inl TypeError, eff) \<and> renames eff = []"
    using handler_result_and_rename_calls
      [of ?undef "\<lambda>d. d" "\<lambda>dir f. dir @ ''/'' @ f" "\<lambda>old new. Some ''ENOENT''" ?norep,
        THEN conjunct2, THEN conjunct2]
      q
    by simp
  from 1 2 3 show ?thesis by blast
qed

subsection \<open>Placeholder substitution\<close>

lemma percent_not_word: "\<not> isWordChar CHR ''%''"
  by (simp add: isWordChar_def charCode_def)


lemma re_placeholder_token:
  assumes "key \<noteq> []" and "list_all isWordChar key"
  shows "re_placeholder (CHR ''%'' # key @ CHR ''%'' # rest) = Some (length key + 2)"
proof -
  have "takeWhile isWordChar (key @ CHR ''%'' # rest) = key @ takeWhile isWordChar (CHR ''%'' # rest)"
    using assms(2) by (intro takeWhile_append2) (simp add: list_all_iff)
  then have "takeWhile isWordChar (key @ CHR ''%'' # rest) = key"
    by (simp add: percent_not_word)
  then show ?thesis using assms(1) by (simp add: re_placeholder_def)
qed

lemma re_placeholder_SomeD:
  assumes "re_placeholder s = Some n"
  shows "\<exists>key post. s = CHR ''%'' # key @ CHR ''%'' # post \<and> key \<noteq> [] \<and> list_all isWordChar key
           \<and> n = length key + 2"
proof -
  from assms obtain cs where s: "s = CHR ''%'' # cs"
    by (auto simp: re_placeholder_def split: list.splits if_splits)
  let ?key = "takeWhile isWordChar cs"
  from assms s obtain ds where k: "?key \<noteq> []" and d: "drop (length ?key) cs = CHR ''%'' # ds"
    and n: "n = length ?key + 2"
    by (auto simp: re_placeholder_def Let_def split: list.splits if_splits)
  have "cs = ?key @ drop (length ?key) cs"
    by (metis append_take_drop_id takeWhile_eq_take)
  then have "cs = ?key @ CHR ''%'' # ds" using d by simp
  moreover have "list_all isWordChar ?key"
    by (auto simp: list_all_iff dest: set_takeWhileD)
  ultimately show ?thesis using s k n by blast
qed





lemma replace_global_no_match:
  "(\<And>s. suffix s t \<Longrightarrow> re s = None) \<Longrightarrow> String_replace_global re f t = t"
proof (induction t)
  case Nil
  then show ?case by simp
next
  case (Cons c cs)
  have "re (c # cs) = None" by (rule Cons.prems) simp
  moreover have "String_replace_global re f cs = cs"
    by (rule Cons.IH) (simp add: Cons.prems suffix_ConsI)
  ultimately show ?case by simp
qed

lemma containsPlaceholderToken_iff:
  "containsPlaceholderToken t = list_ex (\<lambda>s. re_placeholder s \<noteq> None) (suffixes t)"
proof
  assume "containsPlaceholderToken t"
  then obtain pre key post where t: "t = pre @ ''%'' @ key @ ''%'' @ post"
    and k: "key \<noteq> []" "list_all isWordChar key"
    by (auto simp: containsPlaceholderToken_def)
  have "suffix (CHR ''%'' # key @ CHR ''%'' # post) t" using t by (simp add: suffix_def)
  moreover have "re_placeholder (CHR ''%'' # key @ CHR ''%'' # post) \<noteq> None"
    using re_placeholder_token [OF k] by simp
  ultimately show "list_ex (\<lambda>s. re_placeholder s \<noteq> None) (suffixes t)"
    by (auto simp: list_ex_iff)
next
  assume "list_ex (\<lambda>s. re_placeholder s \<noteq> None) (suffixes t)"
  then obtain s n where s: "suffix s t" and "re_placeholder s = Some n"
    by (auto simp: list_ex_iff)
  then obtain key post where "s = CHR ''%'' # key @ CHR ''%'' # post" "key \<noteq> []" "list_all isWordChar key"
    using re_placeholder_SomeD by blast
  moreover from s obtain pre where "t = pre @ s" by (auto simp: suffix_def)
  ultimately have "t = pre @ ''%'' @ key @ ''%'' @ post \<and> key \<noteq> [] \<and> list_all isWordChar key"
    by simp
  then show "containsPlaceholderToken t" unfolding containsPlaceholderToken_def by blast
qed







lemma not_token_if_no_percent: "CHR ''%'' \<notin> set pre \<Longrightarrow> \<not> containsPlaceholderToken (pre @ ''%'')"
proof
  assume n: "CHR ''%'' \<notin> set pre" and "containsPlaceholderToken (pre @ ''%'')"
  then obtain a key b where e: "pre @ ''%'' = a @ ''%'' @ key @ ''%'' @ b"
    by (auto simp: containsPlaceholderToken_def)
  then have "length (filter (\<lambda>c. c = CHR ''%'') (pre @ ''%'')) 
    = length (filter (\<lambda>c. c = CHR ''%'') (a @ ''%'' @ key @ ''%'' @ b))" by simp
  moreover have "filter (\<lambda>c. c = CHR ''%'') pre = []" using n by (induction pre) auto
  ultimately show False by simp
qed



text \<open>
  Claim C9. On a template that contains no placeholder token the substitution step is the
  identity, for every placeholder lookup and so for every record that has one.
\<close>

theorem substitute_identity_without_tokens:
  assumes "\<not> containsPlaceholderToken tmpl"
  shows "substitutePlaceholders ps tmpl = tmpl
         \<and> (getPlaceholderLookup toJSON shot = Inr ps \<longrightarrow>
              replaceFilenameTemplatePlaceholders toJSON (this\<lparr>filenameTemplate := tmpl\<rparr>) shot = Inr tmpl)"
proof -
  have "re_placeholder s = None" if "suffix s tmpl" for s
    using assms that by (auto simp: containsPlaceholderToken_iff list_ex_iff)
  then have "substitutePlaceholders ps tmpl = tmpl"
    unfolding substitutePlaceholders_def by (rule replace_global_no_match)
  then show ?thesis by (simp add: replaceFilenameTemplatePlaceholders_def)
qed

theorem substitute_identity_without_tokens_witness:
  "\<not> containsPlaceholderToken ''shot-100%-%-done%''
   \<and> substitutePlaceholders [(''capId'', ''chrome''), (''done'', ''x'')] ''shot-100%-%-done%''
       = ''shot-100%-%-done%''"
proof -
  have a: "\<not> containsPlaceholderToken ''shot-100%-%-done%''"
    unfolding containsPlaceholderToken_iff by code_simp
  from substitute_identity_without_tokens [OF a, THEN conjunct1] a show ?thesis by simp
qed

subsection \<open>slugify\<close>

lemma toLowerChar_not_upper: "\<not> isUpperChar (toLowerChar c)"
  by (auto simp: isUpperChar_def toLowerChar_def charCode_def Let_def)

lemma dash_not_upper: "\<not> isUpperChar CHR ''-''"
  by (simp add: isUpperChar_def charCode_def)

lemma replace_global_const_set:
  "set (String_replace_global re (\<lambda>m. d) s) \<subseteq> set s \<union> set d"
proof (induction re "\<lambda>m::string. d" s rule: String_replace_global.induct)
  case (1 re)
  show ?case by (auto split: option.splits)
next
  case (2 re c cs)
  show ?case
  proof (cases "re (c # cs)")
    case None
    with 2 show ?thesis by auto
  next
    case (Some n)
    show ?thesis
    proof (cases "n = 0")
      case True
      with 2 Some show ?thesis by auto
    next
      case False
      with 2 Some have "set (String_replace_global re (\<lambda>m. d) (drop n (c # cs)))
                         \<subseteq> set (drop n (c # cs)) \<union> set d" by simp
      moreover have "set (drop n (c # cs)) \<subseteq> set (c # cs)" by (rule set_drop_subset)
      ultimately show ?thesis using Some False by auto
    qed
  qed
qed

lemma filter_dropWhile_not: "filter (\<lambda>c. \<not> P c) (dropWhile P xs) = filter (\<lambda>c. \<not> P c) xs"
  by (induction xs) simp_all

lemma re_plus_Cons:
  "re_plus P (c # cs) = (if P c then Some (Suc (length (takeWhile P cs))) else None)"
  by (simp add: re_plus_def)

lemma drop_takeWhile_length: "drop (length (takeWhile P xs)) xs = dropWhile P xs"
  by (simp add: dropWhile_eq_drop)

lemma replace_plus_filter:
  "String_replace_global (re_plus P) (\<lambda>m. []) s = filter (\<lambda>c. \<not> P c) s"
proof (induction s rule: length_induct)
  case (1 s)
  show ?case
  proof (cases s)
    case Nil
    then show ?thesis by (simp add: re_plus_def)
  next
    case (Cons c cs)
    show ?thesis
    proof (cases "P c")
      case False
      with 1 Cons show ?thesis by (simp add: re_plus_Cons)
    next
      case True
      have "length (dropWhile P cs) < length s"
        using Cons by (simp add: le_imp_less_Suc length_dropWhile_le)
      with 1 have "String_replace_global (re_plus P) (\<lambda>m. []) (dropWhile P cs)
                     = filter (\<lambda>c. \<not> P c) (dropWhile P cs)" by blast
      with True Cons show ?thesis
        by (simp add: re_plus_Cons drop_takeWhile_length filter_dropWhile_not)
    qed
  qed
qed

lemma prefix_dash: "prefix ''-'' s = (\<exists>cs. s = CHR ''-'' # cs)"
  by (cases s) auto

lemma sublist_dashes_Cons:
  "sublist ''--'' (c # cs) = ((c = CHR ''-'' \<and> prefix ''-'' cs) \<or> sublist ''--'' cs)"
  by (auto simp: sublist_Cons_right)

lemma not_prefix_dash_dropWhile: "\<not> prefix ''-'' (dropWhile isDash s)"
proof
  assume "prefix ''-'' (dropWhile isDash s)"
  then obtain cs where e: "dropWhile isDash s = CHR ''-'' # cs" by (auto simp: prefix_dash)
  then have "\<not> isDash (hd (dropWhile isDash s))" by (intro hd_dropWhile) auto
  with e show False by (simp add: isDash_def)
qed

lemma re_dashes2_Cons:
  "re_dashes2 (c # cs) =
     (if isDash c \<and> prefix ''-'' cs then Some (Suc (length (takeWhile isDash cs))) else None)"
  by (cases cs) (auto simp: re_dashes2_def isDash_def)

lemma replace_dashes2:
  "\<not> sublist ''--'' (String_replace_global re_dashes2 (\<lambda>m. ''-'') s)
   \<and> (prefix ''-'' (String_replace_global re_dashes2 (\<lambda>m. ''-'') s) \<longrightarrow> prefix ''-'' s)"
proof (induction s rule: length_induct)
  case (1 s)
  let ?R = "String_replace_global re_dashes2 (\<lambda>m. ''-'')"
  show ?case
  proof (cases s)
    case Nil
    then show ?thesis by (simp add: re_dashes2_def)
  next
    case (Cons c cs)
    from 1 Cons have IH: "\<not> sublist ''--'' (?R cs)" "prefix ''-'' (?R cs) \<Longrightarrow> prefix ''-'' cs"
      by auto
    show ?thesis
    proof (cases "isDash c \<and> prefix ''-'' cs")
      case False
      then have "re_dashes2 (c # cs) = None" unfolding re_dashes2_Cons by simp
      then have R: "?R (c # cs) = c # ?R cs" by simp
      have "\<not> (c = CHR ''-'' \<and> prefix ''-'' (?R cs))" using False IH(2) by (auto simp: isDash_def)
      with IH(1) have "\<not> sublist ''--'' (c # ?R cs)" by (simp only: sublist_dashes_Cons) simp
      then have a: "\<not> sublist ''--'' (?R (c # cs))" unfolding R .
      have b: "prefix ''-'' (?R (c # cs)) \<longrightarrow> prefix ''-'' (c # cs)"
        unfolding R by simp
      from a b show ?thesis unfolding Cons by blast
    next
      case True
      let ?t = "dropWhile isDash cs"
      have "re_dashes2 (c # cs) = Some (Suc (length (takeWhile isDash cs)))"
        unfolding re_dashes2_Cons using True by simp
      then have R: "?R (c # cs) = CHR ''-'' # ?R ?t"
        by (simp add: drop_takeWhile_length)
      have "length ?t < length s" using Cons by (simp add: le_imp_less_Suc length_dropWhile_le)
      with 1 have IHt: "\<not> sublist ''--'' (?R ?t)" "prefix ''-'' (?R ?t) \<longrightarrow> prefix ''-'' ?t"
        by blast+
      have "\<not> prefix ''-'' (?R ?t)" using IHt(2) not_prefix_dash_dropWhile by blast
      with IHt(1) have "\<not> sublist ''--'' (CHR ''-'' # ?R ?t)" by (simp only: sublist_dashes_Cons) simp
      then have a: "\<not> sublist ''--'' (?R (c # cs))" unfolding R .
      have b: "prefix ''-'' (c # cs)" using True by (simp add: isDash_def)
      from a b show ?thesis unfolding Cons by blast
    qed
  qed
qed

lemma replace_anchored_dashes:
  "String_replace_anchored (re_plus isDash) (\<lambda>m. []) s = dropWhile isDash s"
  by (cases s) (simp_all add: String_replace_anchored_def re_plus_def drop_takeWhile_length)

lemma re_dashes_end_Cons:
  "re_dashes_end (c # cs) = (if isDash c \<and> list_all isDash cs then Some (Suc (length cs)) else None)"
  by (simp add: re_dashes_end_def)

lemma replace_first_dashes_end:
  "String_replace_first re_dashes_end (\<lambda>m. []) s = rev (dropWhile isDash (rev s))"
proof (induction s)
  case Nil
  show ?case by (simp add: re_dashes_end_def)
next
  case (Cons c cs)
  show ?case
  proof (cases "isDash c \<and> list_all isDash cs")
    case True
    then have "dropWhile isDash (rev (c # cs)) = []" by (simp add: list_all_iff)
    with True show ?thesis by (simp add: re_dashes_end_Cons)
  next
    case False
    then have "String_replace_first re_dashes_end (\<lambda>m. []) (c # cs)
                 = c # rev (dropWhile isDash (rev cs))"
      using Cons by (simp add: re_dashes_end_Cons)
    moreover have "rev (dropWhile isDash (rev (c # cs))) = c # rev (dropWhile isDash (rev cs))"
    proof (cases "list_all isDash cs")
      case True
      with False have "\<not> isDash c" by simp
      with True show ?thesis by (simp add: dropWhile_append list_all_iff)
    next
      case False
      then show ?thesis by (auto simp: dropWhile_append list_all_iff)
    qed
    ultimately show ?thesis by simp
  qed
qed

lemma prefix_rev_dropWhile_rev: "prefix (rev (dropWhile P (rev s))) s"
proof -
  have "suffix (dropWhile P (rev s)) (rev s)" by (rule suffix_dropWhile)
  then show ?thesis by (simp add: suffix_to_prefix)
qed

lemma not_suffix_dash_trim: "\<not> suffix ''-'' (rev (dropWhile isDash (rev s)))"
proof
  assume "suffix ''-'' (rev (dropWhile isDash (rev s)))"
  then have "prefix ''-'' (dropWhile isDash (rev s))" by (simp add: suffix_to_prefix)
  then show False using not_prefix_dash_dropWhile by blast
qed

lemma sublist_sublist:
  assumes "sublist xs ys" and "sublist ys zs"
  shows "sublist xs zs"
proof -
  from assms obtain a b c d where "ys = a @ xs @ b" "zs = c @ ys @ d"
    by (auto simp: sublist_def)
  then have "zs = (c @ a) @ xs @ (b @ d)" by simp
  then show ?thesis unfolding sublist_def by blast
qed

lemma slugify_unfold:
  "slugify text ''-'' =
     rev (dropWhile isDash (rev (dropWhile isDash
       (String_replace_global re_dashes2 (\<lambda>m. ''-'')
         (filter (\<lambda>c. \<not> isNotSlugChar c)
           (String_replace_global (re_plus isSpaceChar) (\<lambda>m. ''-'') (toLowerCase text)))))))"
  by (simp only: slugify_def Let_def replace_plus_filter replace_anchored_dashes
      replace_first_dashes_end)

lemma slugify_chars: "c \<in> set (slugify text ''-'') \<Longrightarrow> isSlugChar c"
proof -
  let ?s2 = "String_replace_global (re_plus isSpaceChar) (\<lambda>m. ''-'') (toLowerCase text)"
  let ?s3 = "filter (\<lambda>c. \<not> isNotSlugChar c) ?s2"
  let ?s4 = "String_replace_global re_dashes2 (\<lambda>m. ''-'') ?s3"
  assume "c \<in> set (slugify text ''-'')"
  then have "c \<in> set (dropWhile isDash (rev (dropWhile isDash ?s4)))"
    by (simp only: slugify_unfold set_rev)
  then have "c \<in> set ?s4" by (auto dest!: set_dropWhileD)
  then have "c \<in> set ?s3 \<or> c = CHR ''-''"
    using replace_global_const_set [of re_dashes2 "''-''" ?s3] by auto
  moreover have "isSlugChar x" if "x \<in> set ?s3" for x
  proof -
    from that have x: "x \<in> set ?s2" "\<not> isNotSlugChar x" by simp_all
    from x(1) have "x \<in> set (toLowerCase text) \<or> x = CHR ''-''"
      using replace_global_const_set [of "re_plus isSpaceChar" "''-''" "toLowerCase text"] by auto
    then have "\<not> isUpperChar x"
      by (auto simp: toLowerCase_def toLowerChar_not_upper dash_not_upper)
    with x(2) show ?thesis by (auto simp: isSlugChar_def isNotSlugChar_def)
  qed
  ultimately show ?thesis by (auto simp: isSlugChar_def)
qed

text \<open>
  Claim C6. For every text, \<^verbatim>\<open>slugify(text)\<close> consists of lower-case word characters and
  dashes only, does not start with a dash, does not end with a dash and contains no two
  dashes in a row.
\<close>

theorem slugify_shape:
  "list_all (\<lambda>c. (isWordChar c \<and> \<not> isUpperChar c) \<or> c = CHR ''-'') (slugify text ''-'')
   \<and> \<not> prefix ''-'' (slugify text ''-'')
   \<and> \<not> suffix ''-'' (slugify text ''-'')
   \<and> \<not> sublist ''--'' (slugify text ''-'')"
proof -
  let ?s4 = "String_replace_global re_dashes2 (\<lambda>m. ''-'')
         (filter (\<lambda>c. \<not> isNotSlugChar c)
           (String_replace_global (re_plus isSpaceChar) (\<lambda>m. ''-'') (toLowerCase text)))"
  let ?s5 = "dropWhile isDash ?s4"
  have u: "slugify text ''-'' = rev (dropWhile isDash (rev ?s5))" by (rule slugify_unfold)
  have 1: "list_all (\<lambda>c. (isWordChar c \<and> \<not> isUpperChar c) \<or> c = CHR ''-'') (slugify text ''-'')"
    using slugify_chars [of _ "text"] by (auto simp: list_all_iff isSlugChar_def)
  have p: "prefix (slugify text ''-'') ?s5" unfolding u by (rule prefix_rev_dropWhile_rev)
  have 2: "\<not> prefix ''-'' (slugify text ''-'')"
  proof
    assume "prefix ''-'' (slugify text ''-'')"
    then have "prefix ''-'' ?s5" using p by (rule prefix_order.trans)
    then show False using not_prefix_dash_dropWhile by blast
  qed
  have 3: "\<not> suffix ''-'' (slugify text ''-'')" unfolding u by (rule not_suffix_dash_trim)
  have 4: "\<not> sublist ''--'' (slugify text ''-'')"
  proof
    assume a: "sublist ''--'' (slugify text ''-'')"
    have "sublist (slugify text ''-'') ?s5" using p by (rule prefix_imp_sublist)
    moreover have "sublist ?s5 ?s4" by (intro suffix_imp_sublist suffix_dropWhile)
    ultimately have "sublist (slugify text ''-'') ?s4" by (rule sublist_sublist)
    with a have "sublist ''--'' ?s4" by (rule sublist_sublist)
    then show False using replace_dashes2 by blast
  qed
  from 1 2 3 4 show ?thesis by blast
qed

theorem slugify_shape_witness:
  "slugify '' --Lorem,  IPSUM_dolor!-- -x- '' ''-'' = ''lorem-ipsum_dolor-x''
   \<and> list_all (\<lambda>c. (isWordChar c \<and> \<not> isUpperChar c) \<or> c = CHR ''-'')
        (slugify '' --Lorem,  IPSUM_dolor!-- -x- '' ''-'')
   \<and> \<not> prefix ''-'' (slugify '' --Lorem,  IPSUM_dolor!-- -x- '' ''-'')
   \<and> \<not> suffix ''-'' (slugify '' --Lorem,  IPSUM_dolor!-- -x- '' ''-'')
   \<and> \<not> sublist ''--'' (slugify '' --Lorem,  IPSUM_dolor!-- -x- '' ''-'')"
proof -
  have e: "slugify '' --Lorem,  IPSUM_dolor!-- -x- '' ''-'' = ''lorem-ipsum_dolor-x''" by code_simp
  from slugify_shape [of "'' --Lorem,  IPSUM_dolor!-- -x- ''"] e show ?thesis by blast
qed

lemma slugify_examples:
  "slugify ''lorem ipsum'' ''-'' = ''lorem-ipsum''"
  "slugify ''lorem   ipsum'' ''-'' = ''lorem-ipsum''"
  "slugify ''lOrEm IpSuM'' ''-'' = ''lorem-ipsum''"
  "slugify [] ''-'' = []"
  "slugify ''?! ...'' ''-'' = []"
  by code_simp+

subsection \<open>The earlier revision\<close>

lemma lib_empty_capture_is_returned:
  "lib_getCapabilitiesFromScreenshotName ''ERROR__12345_67890.png'' = []"
  by code_simp

lemma lib_default_template:
  "reporterOptions cfg = Some ro \<Longrightarrow> errorshotReporter ro = Some er \<Longrightarrow> falsy (template er)
     \<Longrightarrow> lib_getOptionFilenameTemplate cfg = Inr ''%capId%_%parent%-%title%_%timestamp%''"
  by (simp add: lib_getOptionFilenameTemplate_def)

lemma lib_missing_options_throw:
  "reporterOptions cfg = None \<or> (reporterOptions cfg = Some ro \<and> errorshotReporter ro = None)
     \<Longrightarrow> lib_getOptionFilenameTemplate cfg = Inl TypeError"
  by (auto simp: lib_getOptionFilenameTemplate_def)

lemma lib_handler_returns_undefined:
  "filename shot = Value fname \<Longrightarrow> time shot = Value t \<Longrightarrow> toJSON t = Some json
     \<Longrightarrow> parent shot = Value p \<Longrightarrow> title shot = Value ti
     \<Longrightarrow> screenshotPath (config this) = Some dir
     \<Longrightarrow> \<exists>name. lib_handleEventRunnerScreenshot toJSON pathJoin this shot
           = (Inr None, [(pathJoin dir fname, pathJoin dir name)])"
  by (auto simp: lib_handleEventRunnerScreenshot_def lib_getScreenshotName_def
      lib_getPlaceholderLookup_def Let_def hasOwnProperty_def buildScreenshotFilepath_def)

lemma lib_placeholder_lookup_aliases:
  "lib_getPlaceholderLookup toJSON shot = Inr ps \<Longrightarrow>
     map_of ps ''browser'' = map_of ps ''capId'' \<and> map_of ps ''browserName'' = map_of ps ''capId''
     \<and> (\<forall>v. map_of ps ''timestamp'' = Some v \<longrightarrow> CHR '':'' \<notin> set v)"
  by (auto simp: lib_getPlaceholderLookup_def Let_def replace_char_map
      split: property.splits option.splits)

lemma lib_handler_rejects_incomplete:
  "filename shot = Absent \<or> time shot = Absent \<or> parent shot = Absent \<or> title shot = Absent
     \<Longrightarrow> lib_handleEventRunnerScreenshot toJSON pathJoin this shot = (Inr (Some False), [])"
  by (auto simp: lib_handleEventRunnerScreenshot_def hasOwnProperty_def)

end
